theory Spec2Isabelle
  imports Complex_Main "HOL-Library.Word"
begin

section \<open>The thumbnail service (server.py)\<close>

text \<open>
  The service is one request handler, \<open>thumbnail\<close>, and two helpers,
  \<open>generate_thumbnail\<close> and \<open>get_image_metadata\<close>. Everything they call in the
  web framework, the imaging library, the network and the operating system is outside the
  source file. The pure text functions of those libraries (integer parsing, path functions,
  file-name sanitising, base64) are written out; what depends on the outside world or on a
  codec (fetching a URL, decoding and encoding an image, the tag-name table, text decoding of
  byte strings) is a field of the record \<open>env\<close>, so that every theorem holds for every
  behaviour of those parts.

  Text is \<open>string\<close>. A character below 128 is the ASCII character; a character from 128
  on stands for some code point outside ASCII that is neither a space nor a decimal digit and
  has no compatibility decomposition into ASCII.
\<close>

subsection \<open>Values\<close>

type_synonym byte = "8 word"
type_synonym bytes = "byte list"

text \<open>A Python exception: its class name and \<open>str(e)\<close>.\<close>

datatype exn = Exn (exn_class: string) (exn_str: string)

text \<open>\<open>repr\<close> of a text without quotes, backslashes or control characters.\<close>

definition py_repr :: "string \<Rightarrow> string" where
  "py_repr s = [CHR 0x27] @ s @ [CHR 0x27]"

subsection \<open>\<open>int(...)\<close> on a form value\<close>

definition code :: "char \<Rightarrow> nat" where
  "code c = of_char c"

text \<open>The characters the integer parser skips at both ends.\<close>

definition int_space :: "char \<Rightarrow> bool" where
  "int_space c = (code c = 32 \<or> (9 \<le> code c \<and> code c \<le> 13))"

definition is_digit :: "char \<Rightarrow> bool" where
  "is_digit c = (48 \<le> code c \<and> code c \<le> 57)"

definition digit_or_us :: "char \<Rightarrow> bool" where
  "digit_or_us c = (is_digit c \<or> c = CHR ''_'')"

text \<open>No underscore next to another one.\<close>

fun no_double_us :: "string \<Rightarrow> bool" where
  "no_double_us (a # b # cs) = (\<not> (a = CHR ''_'' \<and> b = CHR ''_'') \<and> no_double_us (b # cs))"
| "no_double_us _ = True"

definition digits_value :: "string \<Rightarrow> int" where
  "digits_value ds = foldl (\<lambda>acc c. 10 * acc + int (code c - 48)) 0 (filter is_digit ds)"

text \<open>
  Base-10 \<open>int(s)\<close>: spaces, an optional sign, digits (single underscores allowed between
  digits), spaces. \<open>None\<close> is the \<open>ValueError\<close>. The digit-count limit of recent
  interpreters is not modelled; it only makes more inputs fail.
\<close>

definition parse_unsigned :: "string \<Rightarrow> int option" where
  "parse_unsigned s =
     (let body = takeWhile digit_or_us s; rest = dropWhile digit_or_us s in
      if body = [] \<or> hd body = CHR ''_'' \<or> last body = CHR ''_'' \<or> \<not> no_double_us body
         \<or> dropWhile int_space rest \<noteq> []
      then None else Some (digits_value body))"

definition py_int :: "string \<Rightarrow> int option" where
  "py_int s =
     (case dropWhile int_space s of
        [] \<Rightarrow> None
      | c # cs \<Rightarrow>
          if c = CHR ''-'' then map_option uminus (parse_unsigned cs)
          else if c = CHR ''+'' then parse_unsigned cs
          else parse_unsigned (c # cs))"

text \<open>\<open>int(request.form.get(name, 100))\<close>: the default is already an integer.\<close>

definition form_int :: "string option \<Rightarrow> exn + int" where
  "form_int field =
     (case field of
        None \<Rightarrow> Inr 100
      | Some s \<Rightarrow>
          (case py_int s of
             None \<Rightarrow> Inl (Exn ''ValueError'' (''invalid literal for int() with base 10: '' @ py_repr s))
           | Some n \<Rightarrow> Inr n))"

subsection \<open>Paths and file names\<close>

text \<open>\<open>os.path.basename\<close>: what follows the last slash.\<close>

definition basename :: "string \<Rightarrow> string" where
  "basename p = rev (takeWhile (\<lambda>c. c \<noteq> CHR ''/'') (rev p))"

text \<open>\<open>os.path.dirname\<close>: what precedes the last slash, without trailing slashes unless
  it is all slashes.\<close>

definition dirname :: "string \<Rightarrow> string" where
  "dirname p =
     (let head = rev (dropWhile (\<lambda>c. c \<noteq> CHR ''/'') (rev p)) in
      if head \<noteq> [] \<and> (\<exists>c \<in> set head. c \<noteq> CHR ''/'')
      then rev (dropWhile (\<lambda>c. c = CHR ''/'') (rev head)) else head)"

text \<open>\<open>os.path.join\<close> of two components.\<close>

definition path_join :: "string \<Rightarrow> string \<Rightarrow> string" where
  "path_join a b =
     (if b \<noteq> [] \<and> hd b = CHR ''/'' then b
      else if a = [] \<or> last a = CHR ''/'' then a @ b
      else a @ ''/'' @ b)"

text \<open>The characters \<open>str.split()\<close> splits at.\<close>

definition str_space :: "char \<Rightarrow> bool" where
  "str_space c = (code c = 32 \<or> (9 \<le> code c \<and> code c \<le> 13) \<or> (28 \<le> code c \<and> code c \<le> 31))"

text \<open>\<open>"_".join(s.split())\<close>: runs of spaces become one underscore, none at the ends.\<close>

fun join_words :: "string \<Rightarrow> bool \<Rightarrow> string \<Rightarrow> string" where
  "join_words [] pending acc = rev acc"
| "join_words (c # cs) pending acc =
     (if str_space c then join_words cs (acc \<noteq> []) acc
      else join_words cs False (c # (if pending then CHR ''_'' # acc else acc)))"

definition filename_char :: "char \<Rightarrow> bool" where
  "filename_char c =
     ((65 \<le> code c \<and> code c \<le> 90) \<or> (97 \<le> code c \<and> code c \<le> 122) \<or> is_digit c
      \<or> c = CHR ''_'' \<or> c = CHR ''.'' \<or> c = CHR ''-'')"

definition dot_or_us :: "char \<Rightarrow> bool" where
  "dot_or_us c = (c = CHR ''.'' \<or> c = CHR ''_'')"

definition strip_chars :: "(char \<Rightarrow> bool) \<Rightarrow> string \<Rightarrow> string" where
  "strip_chars P s = rev (dropWhile P (rev (dropWhile P s)))"

text \<open>
  \<open>werkzeug.utils.secure_filename\<close> on a POSIX system: drop what is not ASCII, turn
  slashes into spaces, join the words with underscores, delete every character outside
  \<open>A-Za-z0-9_.-\<close>, strip dots and underscores at both ends.
\<close>

definition secure_filename :: "string \<Rightarrow> string" where
  "secure_filename name =
     (let ascii = filter (\<lambda>c. code c < 128) name;
          spaced = map (\<lambda>c. if c = CHR ''/'' then CHR '' '' else c) ascii;
          joined = join_words spaced False []
      in strip_chars dot_or_us (filter filename_char joined))"

subsection \<open>The file system\<close>

text \<open>Directories and regular files by path. The empty directory name is the working
  directory.\<close>

record filesys =
  dirs :: "string set"
  stored :: "string \<rightharpoonup> bytes"

definition UPLOAD_FOLDER :: string where
  "UPLOAD_FOLDER = ''uploads''"

definition rstrip_slash :: "string \<Rightarrow> string" where
  "rstrip_slash p = rev (dropWhile (\<lambda>c. c = CHR ''/'') (rev p))"

definition os_error :: "string \<Rightarrow> string \<Rightarrow> string \<Rightarrow> exn" where
  "os_error cls text p = Exn cls (text @ '': '' @ py_repr p)"

definition is_a_directory :: "string \<Rightarrow> exn" where
  "is_a_directory p = os_error ''IsADirectoryError'' ''[Errno 21] Is a directory'' p"

definition not_a_directory :: "string \<Rightarrow> exn" where
  "not_a_directory p = os_error ''NotADirectoryError'' ''[Errno 20] Not a directory'' p"

definition no_such_file :: "string \<Rightarrow> exn" where
  "no_such_file p = os_error ''FileNotFoundError'' ''[Errno 2] No such file or directory'' p"

text \<open>\<open>open(p, "wb")\<close> followed by writing \<open>data\<close>: a path that names a directory, or
  ends in a slash, cannot be opened for writing.\<close>

definition write_file :: "filesys \<Rightarrow> string \<Rightarrow> bytes \<Rightarrow> exn + filesys" where
  "write_file fs p data =
     (if p = [] then Inl (no_such_file p)
      else if stored fs (rstrip_slash p) \<noteq> None \<and> last p = CHR ''/'' then Inl (not_a_directory p)
      else if last p = CHR ''/'' \<or> p \<in> dirs fs then Inl (is_a_directory p)
      else if dirname p \<noteq> [] \<and> stored fs (dirname p) \<noteq> None then Inl (not_a_directory p)
      else if dirname p \<noteq> [] \<and> dirname p \<notin> dirs fs then Inl (no_such_file p)
      else Inr (fs\<lparr>stored := (stored fs)(p \<mapsto> data)\<rparr>))"

text \<open>\<open>open(p, "rb")\<close> and reading all of it.\<close>

definition read_file :: "filesys \<Rightarrow> string \<Rightarrow> exn + bytes" where
  "read_file fs p =
     (if p \<noteq> [] \<and> rstrip_slash p \<in> dirs fs then Inl (is_a_directory p)
      else (case stored fs p of None \<Rightarrow> Inl (no_such_file p) | Some data \<Rightarrow> Inr data))"

text \<open>\<open>os.remove(p)\<close>.\<close>

definition remove_file :: "filesys \<Rightarrow> string \<Rightarrow> exn + filesys" where
  "remove_file fs p =
     (case stored fs p of
        None \<Rightarrow> Inl (if p \<noteq> [] \<and> rstrip_slash p \<in> dirs fs then is_a_directory p else no_such_file p)
      | Some _ \<Rightarrow> Inr (fs\<lparr>stored := (stored fs)(p := None)\<rparr>))"

subsection \<open>Images and the outside world\<close>

text \<open>A value of the embedded tag table, as the imaging library hands it out.\<close>

datatype tag_value =
    VInt int
  | VStr string
  | VBytes bytes
  | VRational int int
  | VTuple "tag_value list"

text \<open>A decoded image: its size, its pixel data (opaque), and what \<open>_getexif()\<close> does on
  it: raise, return \<open>None\<close>, or return the tag table (a dict, so tag ids are distinct).\<close>

record image =
  width :: int
  height :: int
  pixels :: nat
  getexif :: "exn + (nat \<times> tag_value) list option"

text \<open>
  What the code gets from outside:
  \<^item> \<open>urlopen\<close>: the bytes behind a URL, or the exception of the fetch;
  \<^item> \<open>image_open\<close>: \<open>Image.open\<close> on a byte stream;
  \<^item> \<open>save_prepare\<close>: what \<open>Image.save\<close> does with a file name before it opens the
    file (loading the pixel data, choosing the format from the extension);
  \<^item> \<open>image_encode\<close>: encoding an image in a format;
  \<^item> \<open>save_residue\<close>: what is left on disk when encoding into an opened file fails;
  \<^item> \<open>resample\<close>: the pixel data of the image resized to a size;
  \<^item> \<open>thumbnail_other\<close>: \<open>Image.thumbnail\<close> where the spec says nothing (a size or an
    image that is not positive);
  \<^item> \<open>TAGS\<close>: the table from tag ids to tag names;
  \<^item> \<open>bytes_decode\<close>, \<open>bytes_str\<close>: \<open>b.decode()\<close> (\<open>None\<close> is
    \<open>UnicodeDecodeError\<close>) and \<open>str(b)\<close> on a byte string.
\<close>

record env =
  urlopen :: "string \<Rightarrow> exn + bytes"
  image_open :: "bytes \<Rightarrow> exn + image"
  save_prepare :: "string \<Rightarrow> image \<Rightarrow> exn + string"
  image_encode :: "string \<Rightarrow> image \<Rightarrow> exn + bytes"
  save_residue :: "filesys \<Rightarrow> string \<Rightarrow> filesys"
  resample :: "image \<Rightarrow> int \<times> int \<Rightarrow> exn + nat"
  thumbnail_other :: "image \<Rightarrow> int \<times> int \<Rightarrow> exn + image"
  TAGS :: "nat \<Rightarrow> string option"
  bytes_decode :: "bytes \<Rightarrow> string option"
  bytes_str :: "bytes \<Rightarrow> string"

text \<open>What a run leaves behind besides its result: the calls it made and what it
  printed.\<close>

datatype event =
    Fetch string
  | SaveImage string
  | SaveUpload string
  | GenerateThumbnail string int int
  | GetMetadata string
  | RemoveFile string
  | Print string

record state =
  fs :: filesys
  trace :: "event list"

definition log :: "event \<Rightarrow> state \<Rightarrow> state" where
  "log ev s = s\<lparr>trace := trace s @ [ev]\<rparr>"

definition bind_exn :: "exn + 'a \<Rightarrow> ('a \<Rightarrow> exn + 'b) \<Rightarrow> exn + 'b" where
  "bind_exn r f = (case r of Inl e \<Rightarrow> Inl e | Inr x \<Rightarrow> f x)"

subsection \<open>The resize\<close>

text \<open>\<open>max(min(floor(number), ceil(number), key=key), 1)\<close>: of the two neighbouring
  integers the one with the smaller key, the lower one on a tie, and at least 1.\<close>

definition round_aspect :: "rat \<Rightarrow> (int \<Rightarrow> rat) \<Rightarrow> int" where
  "round_aspect number key =
     max (if key \<lfloor>number\<rfloor> \<le> key \<lceil>number\<rceil> then \<lfloor>number\<rfloor> else \<lceil>number\<rceil>) 1"

text \<open>
  Modelled from the spec: the size computation of \<open>Image.thumbnail\<close>, which belongs to the
  imaging library and is not under src/. The spec: "shrink it in place so neither dimension
  exceeds the requested width/height while preserving aspect ratio", a thumbnail being "a
  downscaled copy of an image bounded by a maximum width and height". An image that fits is
  left alone; otherwise the side that the aspect ratio makes binding takes the requested
  value and the other side is the proportional value, rounded to the neighbouring integer
  that keeps the ratio closest, and at least 1. The arithmetic is exact (rational numbers).
\<close>

definition thumbnail_size :: "int \<times> int \<Rightarrow> int \<times> int \<Rightarrow> int \<times> int" where
  "thumbnail_size orig req =
     (let (w, h) = orig; (x, y) = req in
      if x \<ge> w \<and> y \<ge> h then (w, h)
      else
        let aspect = (of_int w / of_int h :: rat) in
        if of_int x / of_int y \<ge> aspect
        then (round_aspect (of_int y * aspect) (\<lambda>n. \<bar>aspect - of_int n / of_int y\<bar>), y)
        else (x, round_aspect (of_int x / aspect)
                   (\<lambda>n. if n = 0 then 0 else \<bar>aspect - of_int x / of_int n\<bar>)))"

text \<open>\<open>img.thumbnail((width, height))\<close>: nothing happens when the size stays; otherwise
  the pixel data is resampled, which can fail (a truncated file is only read here).\<close>

definition image_thumbnail :: "env \<Rightarrow> image \<Rightarrow> int \<times> int \<Rightarrow> exn + image" where
  "image_thumbnail env img req =
     (if width img \<le> 0 \<or> height img \<le> 0 \<or> fst req \<le> 0 \<or> snd req \<le> 0
      then thumbnail_other env img req
      else
        let final_size = thumbnail_size (width img, height img) req in
        if final_size = (width img, height img) then Inr img
        else bind_exn (resample env img final_size)
               (\<lambda>px. Inr (img\<lparr>width := fst final_size, height := snd final_size,
                                pixels := px\<rparr>)))"

subsection \<open>\<open>generate_thumbnail\<close> and \<open>get_image_metadata\<close>\<close>

definition startswith :: "string \<Rightarrow> string \<Rightarrow> bool" where
  "startswith s p = (take (length p) s = p)"

text \<open>The first lines of both helpers: open the image behind a URL or a local path.\<close>

definition open_image :: "env \<Rightarrow> state \<Rightarrow> string \<Rightarrow> (exn + image) \<times> state" where
  "open_image env s image_path =
     (if startswith image_path ''http://'' \<or> startswith image_path ''https://''
      then (bind_exn (urlopen env image_path) (image_open env), log (Fetch image_path) s)
      else (bind_exn (read_file (fs s) image_path) (image_open env), s))"

text \<open>The body of the \<open>try\<close> gives the JPEG bytes or an exception; the \<open>except\<close> prints
  the exception and returns \<open>None\<close>.\<close>

definition generate_thumbnail ::
  "env \<Rightarrow> state \<Rightarrow> string \<Rightarrow> int \<Rightarrow> int \<Rightarrow> bytes option \<times> state" where
  "generate_thumbnail env s image_path w h =
     (let (opened, s1) = open_image env s image_path;
          r = bind_exn opened (\<lambda>img.
                bind_exn (image_thumbnail env img (w, h)) (\<lambda>thumb.
                  image_encode env ''JPEG'' thumb))
      in case r of
           Inl e \<Rightarrow> (None, log (Print (''Error generating thumbnail: '' @ exn_str e)) s1)
         | Inr thumbnail_io \<Rightarrow> (Some thumbnail_io, s1))"

text \<open>A key of the metadata mapping: \<open>TAGS.get(tag_id, tag_id)\<close> is the name, or the id
  itself for an id the table does not know.\<close>

datatype tag_key = TagName string | TagId nat

type_synonym metadata = "(tag_key \<times> tag_value) list"

definition tag_of :: "env \<Rightarrow> nat \<Rightarrow> tag_key" where
  "tag_of env tag_id = (case TAGS env tag_id of Some name \<Rightarrow> TagName name | None \<Rightarrow> TagId tag_id)"

text \<open>A byte string becomes text: decoded, or its \<open>str\<close> form when decoding fails.\<close>

definition decode_value :: "env \<Rightarrow> tag_value \<Rightarrow> tag_value" where
  "decode_value env v =
     (case v of
        VBytes b \<Rightarrow> (case bytes_decode env b of Some t \<Rightarrow> VStr t | None \<Rightarrow> VStr (bytes_str env b))
      | _ \<Rightarrow> v)"

text \<open>\<open>metadata[tag] = value\<close>: a key already there keeps its place.\<close>

fun dict_set :: "('k \<times> 'v) list \<Rightarrow> 'k \<Rightarrow> 'v \<Rightarrow> ('k \<times> 'v) list" where
  "dict_set [] k v = [(k, v)]"
| "dict_set ((k', v') # kvs) k v = (if k' = k then (k, v) # kvs else (k', v') # dict_set kvs k v)"

fun collect_metadata :: "env \<Rightarrow> (nat \<times> tag_value) list \<Rightarrow> metadata \<Rightarrow> metadata" where
  "collect_metadata env [] md = md"
| "collect_metadata env ((tag_id, v) # rest) md =
     collect_metadata env rest (dict_set md (tag_of env tag_id) (decode_value env v))"

definition get_image_metadata :: "env \<Rightarrow> state \<Rightarrow> string \<Rightarrow> metadata \<times> state" where
  "get_image_metadata env s image_path =
     (let (opened, s1) = open_image env s image_path;
          r = bind_exn opened (\<lambda>img.
                bind_exn (getexif img) (\<lambda>exif_data.
                  case exif_data of
                    None \<Rightarrow> Inr []
                  | Some table \<Rightarrow> Inr (collect_metadata env table [])))
      in case r of
           Inl e \<Rightarrow> ([], log (Print (''Error extracting metadata: '' @ exn_str e)) s1)
         | Inr md \<Rightarrow> (md, s1))"

subsection \<open>base64\<close>

definition b64_alphabet :: string where
  "b64_alphabet = ''ABCDEFGHIJKLMNOPQRSTUVWXYZabcdefghijklmnopqrstuvwxyz0123456789+/''"

text \<open>The table lookup, the index masked to six bits.\<close>

definition b64_char :: "nat \<Rightarrow> char" where
  "b64_char n = b64_alphabet ! (n mod 64)"

text \<open>
  \<open>base64.b64encode(data).decode('utf-8')\<close>: three bytes give four characters; one or
  two bytes left over give two or three characters and padding. Shifts and masks are
  written as \<open>div\<close> and \<open>mod\<close> on the byte values.
\<close>

fun b64encode :: "bytes \<Rightarrow> string" where
  "b64encode (a # b # c # rest) =
     [b64_char (unat a div 4),
      b64_char ((unat a mod 4) * 16 + unat b div 16),
      b64_char ((unat b mod 16) * 4 + unat c div 64),
      b64_char (unat c mod 64)] @ b64encode rest"
| "b64encode [a, b] =
     [b64_char (unat a div 4),
      b64_char ((unat a mod 4) * 16 + unat b div 16),
      b64_char ((unat b mod 16) * 4),
      CHR ''='']"
| "b64encode [a] =
     [b64_char (unat a div 4), b64_char ((unat a mod 4) * 16), CHR ''='', CHR ''='']"
| "b64encode [] = []"

text \<open>The reader's side: the standard decoding of padded base64.\<close>

definition b64_index :: "char \<Rightarrow> nat option" where
  "b64_index c = map_of (zip b64_alphabet [0 ..< 64]) c"

definition b64_byte1 :: "nat \<Rightarrow> nat \<Rightarrow> byte" where
  "b64_byte1 i0 i1 = of_nat (i0 * 4 + i1 div 16)"

definition b64_byte2 :: "nat \<Rightarrow> nat \<Rightarrow> byte" where
  "b64_byte2 i1 i2 = of_nat ((i1 mod 16) * 16 + i2 div 4)"

definition b64_byte3 :: "nat \<Rightarrow> nat \<Rightarrow> byte" where
  "b64_byte3 i2 i3 = of_nat ((i2 mod 4) * 64 + i3)"

definition b64_quad :: "char \<Rightarrow> char \<Rightarrow> char \<Rightarrow> char \<Rightarrow> bytes option" where
  "b64_quad c0 c1 c2 c3 =
     (case (b64_index c0, b64_index c1) of
        (Some i0, Some i1) \<Rightarrow>
          if c2 = CHR ''='' \<and> c3 = CHR ''='' then Some [b64_byte1 i0 i1]
          else (case b64_index c2 of
                  None \<Rightarrow> None
                | Some i2 \<Rightarrow>
                    if c3 = CHR ''='' then Some [b64_byte1 i0 i1, b64_byte2 i1 i2]
                    else (case b64_index c3 of
                            None \<Rightarrow> None
                          | Some i3 \<Rightarrow> Some [b64_byte1 i0 i1, b64_byte2 i1 i2, b64_byte3 i2 i3]))
      | _ \<Rightarrow> None)"

fun b64decode :: "string \<Rightarrow> bytes option" where
  "b64decode [] = Some []"
| "b64decode (c0 # c1 # c2 # c3 # rest) =
     (if c3 = CHR ''='' \<and> rest \<noteq> [] then None
      else (case (b64_quad c0 c1 c2 c3, b64decode rest) of
              (Some quad, Some decoded) \<Rightarrow> Some (quad @ decoded)
            | _ \<Rightarrow> None))"
| "b64decode _ = None"

subsection \<open>The response\<close>

text \<open>What \<open>json.dumps\<close> accepts as a value: integers, text and tuples of such; not byte
  strings and not the imaging library's rational numbers.\<close>

fun json_value :: "tag_value \<Rightarrow> bool" where
  "json_value (VInt n) = True"
| "json_value (VStr t) = True"
| "json_value (VBytes b) = False"
| "json_value (VRational n d) = False"
| "json_value (VTuple vs) = (\<forall>v \<in> set vs. json_value v)"

definition is_name :: "tag_key \<Rightarrow> bool" where
  "is_name k = (case k of TagName _ \<Rightarrow> True | TagId _ \<Rightarrow> False)"

text \<open>
  \<open>jsonify\<close> of the success body. The framework sorts the keys of a mapping, which raises
  \<open>TypeError\<close> when names and numbers are mixed; a value that is not serialisable raises
  \<open>TypeError\<close> too. The message texts are abbreviated.
\<close>

definition jsonify_error :: "metadata \<Rightarrow> exn option" where
  "jsonify_error md =
     (if (\<exists>k \<in> set (map fst md). is_name k) \<and> (\<exists>k \<in> set (map fst md). \<not> is_name k)
      then Some (Exn ''TypeError'' ''keys of type int and str cannot be sorted'')
      else if \<exists>v \<in> set (map snd md). \<not> json_value v
      then Some (Exn ''TypeError'' ''value is not JSON serializable'')
      else None)"

datatype body = ErrorJson string | ThumbnailJson string metadata

text \<open>A request ends with a response (status and JSON body) or with an exception that
  nothing in the handler catches.\<close>

datatype outcome = Response nat body | Raised exn

subsection \<open>The request and the handler\<close>

record upload =
  filename :: string
  content :: bytes

record request =
  form :: "string \<rightharpoonup> string"
  files :: "string \<rightharpoonup> upload"

text \<open>
  \<open>img.save(path)\<close>: the library prepares (and may raise before touching the disk),
  opens the file for writing, which empties it, and encodes into it.
\<close>

definition image_save :: "env \<Rightarrow> state \<Rightarrow> image \<Rightarrow> string \<Rightarrow> exn option \<times> state" where
  "image_save env s img path =
     (case save_prepare env path img of
        Inl e \<Rightarrow> (Some e, s)
      | Inr fmt \<Rightarrow>
          (case write_file (fs s) path [] of
             Inl e \<Rightarrow> (Some e, s)
           | Inr fs1 \<Rightarrow>
               (case image_encode env fmt img of
                  Inl e \<Rightarrow> (Some e, s\<lparr>fs := save_residue env fs1 path\<rparr>)
                | Inr data \<Rightarrow> (None, s\<lparr>fs := fs1\<lparr>stored := (stored fs1)(path \<mapsto> data)\<rparr>\<rparr>))))"

text \<open>The \<open>try\<close> block of the URL branch (lines 95 to 103): the temp file path, or the
  exception that the \<open>except\<close> turns into a 400.\<close>

definition download_image :: "env \<Rightarrow> state \<Rightarrow> string \<Rightarrow> (exn + string) \<times> state" where
  "download_image env s image_url =
     (let s1 = log (Fetch image_url) s in
      case bind_exn (urlopen env image_url) (image_open env) of
        Inl e \<Rightarrow> (Inl e, s1)
      | Inr img \<Rightarrow>
          let temp_filename = secure_filename (basename image_url);
              temp_filepath = path_join UPLOAD_FOLDER temp_filename;
              (failure, s2) = image_save env (log (SaveImage temp_filepath) s1) img temp_filepath
          in (case failure of Some e \<Rightarrow> (Inl e, s2) | None \<Rightarrow> (Inr temp_filepath, s2)))"

text \<open>Lines 127 to 132: the temp file is removed; a failure is printed and dropped.\<close>

definition cleanup :: "state \<Rightarrow> string option \<Rightarrow> state" where
  "cleanup s temp =
     (case temp of
        None \<Rightarrow> s
      | Some temp_filepath \<Rightarrow>
          let s1 = log (RemoveFile temp_filepath) s in
          (case remove_file (fs s1) temp_filepath of
             Inl e \<Rightarrow> log (Print (''Error deleting temporary file: '' @ exn_str e)) s1
           | Inr fs1 \<Rightarrow> s1\<lparr>fs := fs1\<rparr>))"

definition data_url_prefix :: string where
  "data_url_prefix = ''data:image/jpeg;base64,''"

text \<open>Lines 116 to 137, common to both sources; \<open>temp\<close> is the temp file path when the
  URL branch has set it.\<close>

definition respond ::
  "env \<Rightarrow> state \<Rightarrow> string \<Rightarrow> int \<Rightarrow> int \<Rightarrow> string option \<Rightarrow> outcome \<times> state" where
  "respond env s image_path w h temp =
     (let (thumbnail_io, s1) =
            generate_thumbnail env (log (GenerateThumbnail image_path w h) s) image_path w h
      in case thumbnail_io of
           None \<Rightarrow> (Response 500 (ErrorJson ''Failed to generate thumbnail''), s1)
         | Some buf \<Rightarrow>
             let (metadata, s2) = get_image_metadata env (log (GetMetadata image_path) s1) image_path;
                 thumbnail_url = data_url_prefix @ b64encode buf;
                 s3 = cleanup s2 temp
             in (case jsonify_error metadata of
                   Some e \<Rightarrow> (Raised e, s3)
                 | None \<Rightarrow> (Response 200 (ThumbnailJson thumbnail_url metadata), s3)))"

text \<open>Lines 93 to 114: the path of the image to work on, together with the temp file
  path when the URL branch has set it, or the response of an early return.\<close>

definition resolve_source ::
  "env \<Rightarrow> state \<Rightarrow> request \<Rightarrow> (outcome + string \<times> string option) \<times> state" where
  "resolve_source env s req =
     (case form req ''imageUrl'' of
        Some image_url \<Rightarrow>
          (case download_image env s image_url of
             (Inl e, s1) \<Rightarrow>
               (Inl (Response 400 (ErrorJson (''Error downloading image from URL: '' @ exn_str e))), s1)
           | (Inr temp_filepath, s1) \<Rightarrow> (Inr (temp_filepath, Some temp_filepath), s1))
      | None \<Rightarrow>
          (case files req ''image'' of
             Some image_file \<Rightarrow>
               if filename image_file = [] then (Inl (Response 400 (ErrorJson ''No selected file'')), s)
               else
                 let image_path = path_join UPLOAD_FOLDER (secure_filename (filename image_file));
                     s1 = log (SaveUpload image_path) s
                 in (case write_file (fs s1) image_path (content image_file) of
                       Inl e \<Rightarrow> (Inl (Raised e), s1)
                     | Inr fs1 \<Rightarrow> (Inr (image_path, None), s1\<lparr>fs := fs1\<rparr>))
           | None \<Rightarrow> (Inl (Response 400 (ErrorJson ''Missing imageUrl or image file'')), s)))"

text \<open>The handler of \<open>/thumbnail\<close>.\<close>

definition thumbnail :: "env \<Rightarrow> state \<Rightarrow> request \<Rightarrow> outcome \<times> state" where
  "thumbnail env s req =
     (case form_int (form req ''width'') of
        Inl e \<Rightarrow> (Raised e, s)
      | Inr w \<Rightarrow>
          (case form_int (form req ''height'') of
             Inl e \<Rightarrow> (Raised e, s)
           | Inr h \<Rightarrow>
               (case resolve_source env s req of
                  (Inl early, s1) \<Rightarrow> (early, s1)
                | (Inr (image_path, temp), s1) \<Rightarrow> respond env s1 image_path w h temp)))"

subsection \<open>A small world to run the handler in\<close>

text \<open>
  A toy image format, so that the handler can be evaluated: a file is a format byte (1 for
  JPEG, 2 for PNG), the width, the height, a byte that is odd when the picture has an alpha
  channel, and, in a JPEG, the bytes of the \<open>Make\<close> tag if any follow. JPEG cannot store an
  alpha channel. The web has two pictures.
\<close>

definition toy_open :: "bytes \<Rightarrow> exn + image" where
  "toy_open data =
     (case data of
        f # w # h # a # tagbytes \<Rightarrow>
          if (f = 1 \<or> f = 2) \<and> w \<noteq> 0 \<and> h \<noteq> 0
          then Inr \<lparr>width = uint w, height = uint h, pixels = unat a,
                    getexif = (if f = 2 then Inl (Exn ''AttributeError'' ''_getexif'')
                               else if tagbytes = [] then Inr None
                               else Inr (Some [(271, VBytes tagbytes)]))\<rparr>
          else Inl (Exn ''UnidentifiedImageError'' ''cannot identify image file'')
      | _ \<Rightarrow> Inl (Exn ''UnidentifiedImageError'' ''cannot identify image file''))"

definition toy_encode :: "string \<Rightarrow> image \<Rightarrow> exn + bytes" where
  "toy_encode fmt img =
     (if fmt = ''JPEG'' \<and> odd (pixels img) then Inl (Exn ''OSError'' ''cannot write mode RGBA as JPEG'')
      else if fmt = ''JPEG'' then Inr [1, of_int (width img), of_int (height img), of_nat (pixels img)]
      else if fmt = ''PNG'' then Inr [2, of_int (width img), of_int (height img), of_nat (pixels img)]
      else Inl (Exn ''KeyError'' fmt))"

definition endswith :: "string \<Rightarrow> string \<Rightarrow> bool" where
  "endswith s suffix = startswith (rev s) (rev suffix)"

definition toy_prepare :: "string \<Rightarrow> image \<Rightarrow> exn + string" where
  "toy_prepare path img =
     (if endswith path ''.jpg'' then Inr ''JPEG''
      else if endswith path ''.png'' then Inr ''PNG''
      else Inl (Exn ''ValueError'' ''unknown file extension''))"

definition toy_urlopen :: "string \<Rightarrow> exn + bytes" where
  "toy_urlopen url =
     (if url = ''http://example.org/photo.jpg'' then Inr [1, 200, 150, 0, 84, 101, 115, 116, 67, 97, 109]
      else if url = ''http://example.org/logo.png'' then Inr [2, 64, 48, 1]
      else Inl (Exn ''URLError'' ''<urlopen error [Errno -2] Name or service not known>''))"

definition toy_decode :: "bytes \<Rightarrow> string option" where
  "toy_decode b = (if \<exists>x \<in> set b. 128 \<le> unat x then None else Some (map (\<lambda>x. char_of (unat x)) b))"

definition hex_digit :: "nat \<Rightarrow> char" where
  "hex_digit n = ''0123456789abcdef'' ! (n mod 16)"

text \<open>\<open>str\<close> of a byte string that holds no quote, backslash, tab or line break.\<close>

definition toy_bytes_str :: "bytes \<Rightarrow> string" where
  "toy_bytes_str b =
     ''b'' @ py_repr (concat (map (\<lambda>x. if 32 \<le> unat x \<and> unat x < 127 then [char_of (unat x)]
                                      else [CHR 0x5C, CHR ''x'', hex_digit (unat x div 16),
                                            hex_digit (unat x mod 16)]) b))"

definition example_env :: env where
  "example_env =
     \<lparr>urlopen = toy_urlopen,
      image_open = toy_open,
      save_prepare = toy_prepare,
      image_encode = toy_encode,
      save_residue = (\<lambda>fs path. fs\<lparr>stored := (stored fs)(path := None)\<rparr>),
      resample = (\<lambda>img new_size. Inr (pixels img)),
      thumbnail_other = (\<lambda>img req. Inl (Exn ''ValueError'' ''height and width must be > 0'')),
      TAGS = (\<lambda>tag_id. if tag_id = 271 then Some ''Make'' else if tag_id = 272 then Some ''Model'' else None),
      bytes_decode = toy_decode,
      bytes_str = toy_bytes_str\<rparr>"

text \<open>The server after start-up: the uploads directory exists and is empty.\<close>

definition start_state :: state where
  "start_state = \<lparr>fs = \<lparr>dirs = {''uploads''}, stored = Map.empty\<rparr>, trace = []\<rparr>"

subsection \<open>Reading a trace\<close>

text \<open>The calls of \<open>generate_thumbnail\<close> and the saves of an uploaded file in a trace.\<close>

definition generate_calls :: "event list \<Rightarrow> event list" where
  "generate_calls evs = filter (\<lambda>ev. case ev of GenerateThumbnail _ _ _ \<Rightarrow> True | _ \<Rightarrow> False) evs"

definition upload_saves :: "event list \<Rightarrow> event list" where
  "upload_saves evs = filter (\<lambda>ev. case ev of SaveUpload _ \<Rightarrow> True | _ \<Rightarrow> False) evs"

section \<open>Properties\<close>

subsection \<open>Width and height\<close>






subsection \<open>base64 round trip\<close>

lemma b64_index_char: "n < 64 \<Longrightarrow> b64_index (b64_char n) = Some n"
proof -
  have "list_all (\<lambda>n. b64_index (b64_char n) = Some n) [0..<64]" by code_simp
  then show "n < 64 \<Longrightarrow> b64_index (b64_char n) = Some n"
    by (simp add: list_all_iff)
qed

lemma b64_char_not_pad: "n < 64 \<Longrightarrow> b64_char n \<noteq> CHR ''=''"
proof -
  have "list_all (\<lambda>n. b64_char n \<noteq> CHR ''='') [0..<64]" by code_simp
  then show "n < 64 \<Longrightarrow> b64_char n \<noteq> CHR ''=''"
    by (simp add: list_all_iff)
qed

lemma unat_byte_less: "unat (a :: byte) < 256"
  using unsigned_less [of a, where ?'a = nat] by simp

lemma sextet_bounds:
  fixes a b c :: nat
  assumes "a < 256" "b < 256" "c < 256"
  shows "a div 4 < 64" "(a mod 4) * 16 + b div 16 < 64" "(b mod 16) * 4 + c div 64 < 64"
    "c mod 64 < 64" "(a mod 4) * 16 < 64" "(b mod 16) * 4 < 64"
  using assms by linarith+

lemma sextets_byte1:
  fixes a b :: nat
  assumes "b < 256"
  shows "(a div 4) * 4 + ((a mod 4) * 16 + b div 16) div 16 = a"
proof -
  have "b div 16 < 16" using assms by linarith
  then have "((a mod 4) * 16 + b div 16) div 16 = a mod 4" by simp
  then show ?thesis by simp
qed

lemma sextets_byte2:
  fixes a b c :: nat
  assumes "b < 256" "c < 256"
  shows "(((a mod 4) * 16 + b div 16) mod 16) * 16 + ((b mod 16) * 4 + c div 64) div 4 = b"
proof -
  have "b div 16 < 16" using assms by linarith
  then have 1: "((a mod 4) * 16 + b div 16) mod 16 = b div 16" by simp
  have "c div 64 < 4" using assms by linarith
  then have 2: "((b mod 16) * 4 + c div 64) div 4 = b mod 16" by simp
  show ?thesis unfolding 1 2 by simp
qed

lemma sextets_byte3:
  fixes b c :: nat
  assumes "c < 256"
  shows "(((b mod 16) * 4 + c div 64) mod 4) * 64 + c mod 64 = c"
proof -
  have "c div 64 < 4" using assms by linarith
  then have 1: "((b mod 16) * 4 + c div 64) mod 4 = c div 64" by simp
  show ?thesis unfolding 1 by simp
qed

lemma b64_byte1_unat:
  "b64_byte1 (unat a div 4) ((unat a mod 4) * 16 + unat (b :: byte) div 16) = a"
  unfolding b64_byte1_def sextets_byte1 [OF unat_byte_less] by simp

lemma b64_byte1_unat0:
  "b64_byte1 (unat a div 4) ((unat a mod 4) * 16) = a"
  using b64_byte1_unat [of a 0] by simp

lemma b64_byte2_unat:
  "b64_byte2 ((unat a mod 4) * 16 + unat (b :: byte) div 16)
     ((unat b mod 16) * 4 + unat (c :: byte) div 64) = b"
  unfolding b64_byte2_def sextets_byte2 [OF unat_byte_less unat_byte_less] by simp

lemma b64_byte2_unat0:
  "b64_byte2 ((unat a mod 4) * 16 + unat (b :: byte) div 16) ((unat b mod 16) * 4) = b"
  using b64_byte2_unat [of a b 0] by simp

lemma b64_byte3_unat:
  "b64_byte3 ((unat b mod 16) * 4 + unat (c :: byte) div 64) (unat c mod 64) = c"
  unfolding b64_byte3_def sextets_byte3 [OF unat_byte_less] by simp

lemma b64_quad_three:
  "b64_quad (b64_char (unat a div 4)) (b64_char ((unat a mod 4) * 16 + unat b div 16))
     (b64_char ((unat b mod 16) * 4 + unat c div 64)) (b64_char (unat c mod 64)) = Some [a, b, c]"
proof -
  note bounds = sextet_bounds [OF unat_byte_less [of a] unat_byte_less [of b] unat_byte_less [of c]]
  show ?thesis
    unfolding b64_quad_def
    by (simp only: b64_index_char [OF bounds(1)] b64_index_char [OF bounds(2)]
          b64_index_char [OF bounds(3)] b64_index_char [OF bounds(4)]
          b64_char_not_pad [OF bounds(3)] b64_char_not_pad [OF bounds(4)]
          b64_byte1_unat b64_byte2_unat b64_byte3_unat
          prod.case option.case simp_thms if_False)
qed

lemma b64_quad_two:
  "b64_quad (b64_char (unat a div 4)) (b64_char ((unat a mod 4) * 16 + unat b div 16))
     (b64_char ((unat b mod 16) * 4)) CHR ''='' = Some [a, b]"
proof -
  note bounds = sextet_bounds [OF unat_byte_less [of a] unat_byte_less [of b] unat_byte_less [of 0]]
  show ?thesis
    unfolding b64_quad_def
    by (simp only: b64_index_char [OF bounds(1)] b64_index_char [OF bounds(2)]
          b64_index_char [OF bounds(6)] b64_char_not_pad [OF bounds(6)]
          b64_byte1_unat b64_byte2_unat0
          prod.case option.case simp_thms if_False if_True)
qed

lemma b64_quad_one:
  "b64_quad (b64_char (unat a div 4)) (b64_char ((unat a mod 4) * 16)) CHR ''='' CHR ''='' = Some [a]"
proof -
  note bounds = sextet_bounds [OF unat_byte_less [of a] unat_byte_less [of 0] unat_byte_less [of 0]]
  show ?thesis
    unfolding b64_quad_def
    by (simp only: b64_index_char [OF bounds(1)] b64_index_char [OF bounds(5)]
          b64_byte1_unat0 prod.case option.case simp_thms if_True)
qed

lemma b64_roundtrip: "b64decode (b64encode data) = Some data"
proof (induction data rule: b64encode.induct)
  case (1 a b c rest)
  have "b64_char (unat c mod 64) \<noteq> CHR ''=''"
    by (rule b64_char_not_pad) simp
  then show ?case using 1 by (simp add: b64_quad_three)
next
  case (2 a b)
  show ?case by (simp add: b64_quad_two)
next
  case (3 a)
  show ?case by (simp add: b64_quad_one)
next
  case 4
  show ?case by simp
qed

subsection \<open>Running the small world\<close>

lemmas toy_defs = toy_urlopen_def toy_open_def toy_encode_def toy_decode_def example_env_def
  start_state_def

lemmas handler_defs = thumbnail_def form_int_def resolve_source_def download_image_def
  image_save_def respond_def generate_thumbnail_def get_image_metadata_def open_image_def
  image_thumbnail_def cleanup_def write_file_def read_file_def remove_file_def log_def
  bind_exn_def jsonify_error_def data_url_prefix_def Let_def

lemma sf_photo: "secure_filename (basename ''http://example.org/photo.jpg'') = ''photo.jpg''"
  by code_simp

lemma pj_photo: "path_join UPLOAD_FOLDER ''photo.jpg'' = ''uploads/photo.jpg''"
  by code_simp

lemma dirname_photo: "dirname ''uploads/photo.jpg'' = ''uploads''"
  by code_simp

lemma rstrip_photo: "rstrip_slash ''uploads/photo.jpg'' = ''uploads/photo.jpg''"
  by code_simp

lemma prep_photo: "toy_prepare ''uploads/photo.jpg'' img = Inr ''JPEG''"
  by (simp add: toy_prepare_def endswith_def startswith_def)

lemma sw_photo:
  "\<not> startswith ''uploads/photo.jpg'' ''http://''"
  "\<not> startswith ''uploads/photo.jpg'' ''https://''"
  by (simp_all add: startswith_def)

lemma b64_photo: "b64encode [1, 100, 75, 0] = ''AWRLAA==''"
  by code_simp

lemma tsize_photo: "thumbnail_size (200, 150) (100, 100) = (100, 75)"
  by (simp add: thumbnail_size_def round_aspect_def)

lemmas photo_simps = sf_photo pj_photo dirname_photo rstrip_photo prep_photo sw_photo b64_photo
  tsize_photo

text \<open>The picture behind a URL, 200 by 150 with a \<open>Make\<close> tag, at the default size.\<close>

lemma photo_request:
  "fst (thumbnail example_env start_state
     \<lparr>form = [''imageUrl'' \<mapsto> ''http://example.org/photo.jpg''], files = Map.empty\<rparr>)
   = Response 200 (ThumbnailJson ''data:image/jpeg;base64,AWRLAA=='' [])"
  by (simp add: handler_defs toy_defs photo_simps del: b64encode.simps)

subsection \<open>The shape of a response\<close>

lemma resolve_source_early:
  "resolve_source env s req = (Inl early, s1) \<Longrightarrow>
   (\<exists>m. early = Response 400 (ErrorJson m)) \<or> (\<exists>e. early = Raised e)"
  by (auto simp: resolve_source_def Let_def split: option.splits prod.splits sum.splits if_splits)

lemma respond_200:
  "fst (respond env s p w h temp) = Response 200 body \<Longrightarrow>
   \<exists>buf s1. generate_thumbnail env (log (GenerateThumbnail p w h) s) p w h = (Some buf, s1)
     \<and> body = ThumbnailJson (data_url_prefix @ b64encode buf)
                (fst (get_image_metadata env (log (GetMetadata p) s1) p))"
  by (auto simp: respond_def Let_def split: option.splits prod.splits)

lemma thumbnail_200:
  assumes "fst (thumbnail env s req) = Response 200 body"
  shows "\<exists>w h p temp s1. form_int (form req ''width'') = Inr w \<and> form_int (form req ''height'') = Inr h
           \<and> resolve_source env s req = (Inr (p, temp), s1)
           \<and> fst (respond env s1 p w h temp) = Response 200 body"
proof -
  obtain w where w: "form_int (form req ''width'') = Inr w"
    using assms by (cases "form_int (form req ''width'')") (simp_all add: thumbnail_def)
  obtain h where h: "form_int (form req ''height'') = Inr h"
    using assms w by (cases "form_int (form req ''height'')") (simp_all add: thumbnail_def)
  obtain r s1 where r: "resolve_source env s req = (r, s1)" by (cases "resolve_source env s req")
  show ?thesis
  proof (cases r)
    case (Inl early)
    then have "early = Response 200 body" using assms w h r by (simp add: thumbnail_def)
    then show ?thesis using resolve_source_early [of env s req early s1] r Inl by auto
  next
    case (Inr pt)
    then show ?thesis using assms w h r by (cases pt) (simp add: thumbnail_def)
  qed
qed

text \<open>
  C5. In every 200 response the thumbnail URL is the text \<open>data:image/jpeg;base64,\<close>
  followed by the base64 encoding of the buffer that \<open>generate_thumbnail\<close> returned for
  the request's width and height; dropping that prefix and decoding the rest gives back
  exactly that buffer.
\<close>

theorem thumbnail_url_roundtrip:
  assumes "fst (thumbnail env s req) = Response 200 body"
  shows "\<exists>buf md path st w h.
           form_int (form req ''width'') = Inr w \<and> form_int (form req ''height'') = Inr h
           \<and> fst (generate_thumbnail env st path w h) = Some buf
           \<and> body = ThumbnailJson (''data:image/jpeg;base64,'' @ b64encode buf) md
           \<and> b64decode (drop (length ''data:image/jpeg;base64,'')
                  (''data:image/jpeg;base64,'' @ b64encode buf)) = Some buf"
proof -
  from thumbnail_200 [OF assms] obtain w h p temp s1 where
    wh: "form_int (form req ''width'') = Inr w" "form_int (form req ''height'') = Inr h"
    and ok: "fst (respond env s1 p w h temp) = Response 200 body" by blast
  from respond_200 [OF ok] obtain buf s2 where
    gen: "generate_thumbnail env (log (GenerateThumbnail p w h) s1) p w h = (Some buf, s2)"
    and body: "body = ThumbnailJson (data_url_prefix @ b64encode buf)
                       (fst (get_image_metadata env (log (GetMetadata p) s2) p))" by blast
  have "fst (generate_thumbnail env (log (GenerateThumbnail p w h) s1) p w h) = Some buf"
    using gen by simp
  moreover have "b64decode (drop (length ''data:image/jpeg;base64,'')
                  (''data:image/jpeg;base64,'' @ b64encode buf)) = Some buf"
    by (simp add: b64_roundtrip)
  ultimately show ?thesis using wh body unfolding data_url_prefix_def by blast
qed

theorem thumbnail_url_roundtrip_witness:
  "\<exists>buf. fst (thumbnail example_env start_state
              \<lparr>form = [''imageUrl'' \<mapsto> ''http://example.org/photo.jpg''], files = Map.empty\<rparr>)
           = Response 200 (ThumbnailJson (''data:image/jpeg;base64,'' @ b64encode buf) [])
         \<and> b64decode ''AWRLAA=='' = Some buf"
  using thumbnail_url_roundtrip [OF photo_request]
proof (elim exE conjE)
  fix buf :: bytes and md :: metadata
  assume body: "ThumbnailJson ''data:image/jpeg;base64,AWRLAA=='' []
                  = ThumbnailJson (''data:image/jpeg;base64,'' @ b64encode buf) md"
    and dec: "b64decode (drop (length ''data:image/jpeg;base64,'')
                (''data:image/jpeg;base64,'' @ b64encode buf)) = Some buf"
  have enc: "b64encode buf = ''AWRLAA==''"
    using body by simp
  have "b64decode (b64encode buf) = Some buf"
    using dec by simp
  then have decoded: "b64decode ''AWRLAA=='' = Some buf"
    unfolding enc .
  have "fst (thumbnail example_env start_state
              \<lparr>form = [''imageUrl'' \<mapsto> ''http://example.org/photo.jpg''], files = Map.empty\<rparr>)
          = Response 200 (ThumbnailJson (''data:image/jpeg;base64,'' @ b64encode buf) [])"
    unfolding enc using photo_request by simp
  then show ?thesis using decoded by (intro exI conjI)
qed

subsection \<open>What a run adds to the trace and the disk\<close>

lemma generate_calls_simps [simp]:
  "generate_calls [] = []"
  "generate_calls (xs @ ys) = generate_calls xs @ generate_calls ys"
  "generate_calls (GenerateThumbnail p w h # xs) = GenerateThumbnail p w h # generate_calls xs"
  "generate_calls (Fetch u # xs) = generate_calls xs"
  "generate_calls (SaveImage p # xs) = generate_calls xs"
  "generate_calls (SaveUpload p # xs) = generate_calls xs"
  "generate_calls (GetMetadata p # xs) = generate_calls xs"
  "generate_calls (RemoveFile p # xs) = generate_calls xs"
  "generate_calls (Print m # xs) = generate_calls xs"
  by (simp_all add: generate_calls_def)

lemma upload_saves_simps [simp]:
  "upload_saves [] = []"
  "upload_saves (xs @ ys) = upload_saves xs @ upload_saves ys"
  "upload_saves (SaveUpload p # xs) = SaveUpload p # upload_saves xs"
  "upload_saves (Fetch u # xs) = upload_saves xs"
  "upload_saves (SaveImage p # xs) = upload_saves xs"
  "upload_saves (GenerateThumbnail p w h # xs) = upload_saves xs"
  "upload_saves (GetMetadata p # xs) = upload_saves xs"
  "upload_saves (RemoveFile p # xs) = upload_saves xs"
  "upload_saves (Print m # xs) = upload_saves xs"
  by (simp_all add: upload_saves_def)

lemma open_image_state:
  "fs (snd (open_image env s p)) = fs s"
  "upload_saves (trace (snd (open_image env s p))) = upload_saves (trace s)"
  "generate_calls (trace (snd (open_image env s p))) = generate_calls (trace s)"
  by (simp_all add: open_image_def log_def)

lemma generate_thumbnail_state:
  "fs (snd (generate_thumbnail env s p w h)) = fs s"
  "upload_saves (trace (snd (generate_thumbnail env s p w h))) = upload_saves (trace s)"
  using open_image_state [of env s p]
  by (auto simp: generate_thumbnail_def log_def Let_def split: prod.splits sum.splits)

lemma get_image_metadata_state:
  "fs (snd (get_image_metadata env s p)) = fs s"
  "upload_saves (trace (snd (get_image_metadata env s p))) = upload_saves (trace s)"
  using open_image_state [of env s p]
  by (auto simp: get_image_metadata_def log_def Let_def split: prod.splits sum.splits)

lemma cleanup_trace:
  "upload_saves (trace (cleanup s temp)) = upload_saves (trace s)"
  by (auto simp: cleanup_def log_def Let_def split: option.splits sum.splits)

lemma image_save_trace: "trace (snd (image_save env s img p)) = trace s"
  by (auto simp: image_save_def split: sum.splits)

lemma download_image_trace_eq:
  "trace (snd (download_image env s u)) =
     trace s @ (case bind_exn (urlopen env u) (image_open env) of
                  Inl e \<Rightarrow> [Fetch u]
                | Inr img \<Rightarrow> [Fetch u, SaveImage (path_join UPLOAD_FOLDER (secure_filename (basename u)))])"
proof (cases "bind_exn (urlopen env u) (image_open env)")
  case (Inl e)
  then show ?thesis by (simp add: download_image_def log_def)
next
  case (Inr img)
  let ?p = "path_join UPLOAD_FOLDER (secure_filename (basename u))"
  let ?s2 = "log (SaveImage ?p) (log (Fetch u) s)"
  obtain failure s3 where sv: "image_save env ?s2 img ?p = (failure, s3)"
    by (cases "image_save env ?s2 img ?p")
  have "trace s3 = trace ?s2"
    using image_save_trace [of env ?s2 img ?p] sv by simp
  then show ?thesis using Inr sv
    by (simp add: download_image_def log_def Let_def split: option.splits)
qed

lemma download_image_trace:
  "upload_saves (trace (snd (download_image env s u))) = upload_saves (trace s)"
  "generate_calls (trace (snd (download_image env s u))) = generate_calls (trace s)"
  "Fetch u \<in> set (trace (snd (download_image env s u)))"
  by (simp_all add: download_image_trace_eq split: sum.splits)

lemma respond_trace:
  "upload_saves (trace (snd (respond env s p w h temp))) = upload_saves (trace s)"
proof -
  let ?s0 = "log (GenerateThumbnail p w h) s"
  obtain r s1 where g: "generate_thumbnail env ?s0 p w h = (r, s1)"
    by (cases "generate_thumbnail env ?s0 p w h")
  have s1: "upload_saves (trace s1) = upload_saves (trace s)"
    using generate_thumbnail_state(2) [of env ?s0 p w h] g by (simp add: log_def)
  show ?thesis
  proof (cases r)
    case None
    then show ?thesis using g s1 by (simp add: respond_def)
  next
    case (Some buf)
    let ?s1' = "log (GetMetadata p) s1"
    obtain md s2 where m: "get_image_metadata env ?s1' p = (md, s2)"
      by (cases "get_image_metadata env ?s1' p")
    have s2: "upload_saves (trace s2) = upload_saves (trace s)"
      using get_image_metadata_state(2) [of env ?s1' p] m s1 by (simp add: log_def)
    show ?thesis using g Some m s2 cleanup_trace [of s2 temp]
      by (simp add: respond_def Let_def split: option.splits)
  qed
qed

subsection \<open>The URL source\<close>

lemma download_image_failure:
  assumes "urlopen env image_url = Inl e
      \<or> (\<exists>data. urlopen env image_url = Inr data \<and> image_open env data = Inl e)
      \<or> (\<exists>data img. urlopen env image_url = Inr data \<and> image_open env data = Inr img
            \<and> fst (image_save env
                      (log (SaveImage (path_join UPLOAD_FOLDER (secure_filename (basename image_url))))
                         (log (Fetch image_url) s))
                      img (path_join UPLOAD_FOLDER (secure_filename (basename image_url)))) = Some e)"
  shows "fst (download_image env s image_url) = Inl e"
  using assms
  by (auto simp: download_image_def bind_exn_def Let_def split: prod.splits option.splits)

text \<open>
  C6. When the width and height are read and the request has an \<open>imageUrl\<close> whose fetch,
  decoding or save to the uploads directory raises \<open>e\<close>, the response is status 400 with
  the message \<open>Error downloading image from URL: \<close> followed by \<open>str(e)\<close>, and
  \<open>generate_thumbnail\<close> has not been called.
\<close>

theorem url_failure_is_400:
  assumes w: "form_int (form req ''width'') = Inr w"
    and h: "form_int (form req ''height'') = Inr h"
    and url: "form req ''imageUrl'' = Some image_url"
    and cause: "urlopen env image_url = Inl e
      \<or> (\<exists>data. urlopen env image_url = Inr data \<and> image_open env data = Inl e)
      \<or> (\<exists>data img. urlopen env image_url = Inr data \<and> image_open env data = Inr img
            \<and> fst (image_save env
                      (log (SaveImage (path_join UPLOAD_FOLDER (secure_filename (basename image_url))))
                         (log (Fetch image_url) s))
                      img (path_join UPLOAD_FOLDER (secure_filename (basename image_url)))) = Some e)"
  shows "fst (thumbnail env s req)
           = Response 400 (ErrorJson (''Error downloading image from URL: '' @ exn_str e))
         \<and> generate_calls (trace (snd (thumbnail env s req))) = generate_calls (trace s)"
proof -
  obtain r s1 where d: "download_image env s image_url = (r, s1)"
    by (cases "download_image env s image_url")
  have r: "r = Inl e"
    using download_image_failure [OF cause] d by simp
  have t: "generate_calls (trace s1) = generate_calls (trace s)"
    using download_image_trace(2) [of env s image_url] d by simp
  have "thumbnail env s req
          = (Response 400 (ErrorJson (''Error downloading image from URL: '' @ exn_str e)), s1)"
    using w h url d r by (simp add: thumbnail_def resolve_source_def)
  then show ?thesis using t by simp
qed

lemma nowhere_request:
  "toy_urlopen ''http://nowhere.invalid/cat.jpg''
     = Inl (Exn ''URLError'' ''<urlopen error [Errno -2] Name or service not known>'')"
  by (simp add: toy_urlopen_def)

theorem url_failure_is_400_witness:
  "fst (thumbnail example_env start_state
          \<lparr>form = [''imageUrl'' \<mapsto> ''http://nowhere.invalid/cat.jpg''], files = Map.empty\<rparr>)
     = Response 400 (ErrorJson (''Error downloading image from URL: ''
                       @ ''<urlopen error [Errno -2] Name or service not known>''))
   \<and> generate_calls (trace (snd (thumbnail example_env start_state
          \<lparr>form = [''imageUrl'' \<mapsto> ''http://nowhere.invalid/cat.jpg''], files = Map.empty\<rparr>))) = []"
proof -
  let ?req = "\<lparr>form = [''imageUrl'' \<mapsto> ''http://nowhere.invalid/cat.jpg''], files = Map.empty\<rparr>"
  let ?e = "Exn ''URLError'' ''<urlopen error [Errno -2] Name or service not known>''"
  have w: "form_int (form ?req ''width'') = Inr 100" by (simp add: form_int_def)
  have h: "form_int (form ?req ''height'') = Inr 100" by (simp add: form_int_def)
  have url: "form ?req ''imageUrl'' = Some ''http://nowhere.invalid/cat.jpg''" by simp
  have cause: "urlopen example_env ''http://nowhere.invalid/cat.jpg'' = Inl ?e"
    by (simp add: example_env_def nowhere_request)
  from url_failure_is_400 [of ?req 100 100 "''http://nowhere.invalid/cat.jpg''" example_env ?e start_state,
      OF w h url disjI1 [OF cause]]
  show ?thesis by (simp add: start_state_def)
qed

lemma resolve_source_url_files:
  "form req ''imageUrl'' = Some image_url \<Longrightarrow>
   resolve_source env s (req\<lparr>files := fl\<rparr>) = resolve_source env s req"
  by (simp add: resolve_source_def)

lemma resolve_source_url_trace:
  assumes "form req ''imageUrl'' = Some image_url"
  shows "upload_saves (trace (snd (resolve_source env s req))) = upload_saves (trace s)"
    and "Fetch image_url \<in> set (trace (snd (resolve_source env s req)))"
proof -
  obtain r s1 where d: "download_image env s image_url = (r, s1)"
    by (cases "download_image env s image_url")
  have s1: "snd (resolve_source env s req) = s1"
    using assms d by (cases r) (simp_all add: resolve_source_def)
  show "upload_saves (trace (snd (resolve_source env s req))) = upload_saves (trace s)"
    using download_image_trace(1) [of env s image_url] d s1 by simp
  show "Fetch image_url \<in> set (trace (snd (resolve_source env s req)))"
    using download_image_trace(3) [of image_url env s] d s1 by simp
qed

lemma respond_trace_grows:
  "set (trace s) \<subseteq> set (trace (snd (respond env s p w h temp)))"
proof -
  have o: "\<And>st. set (trace st) \<subseteq> set (trace (snd (open_image env st p)))"
    by (auto simp: open_image_def log_def)
  have g: "\<And>st. set (trace st) \<subseteq> set (trace (snd (generate_thumbnail env st p w h)))"
    using o by (fastforce simp: generate_thumbnail_def log_def Let_def split: prod.splits sum.splits)
  have m: "\<And>st. set (trace st) \<subseteq> set (trace (snd (get_image_metadata env st p)))"
    using o by (fastforce simp: get_image_metadata_def log_def Let_def split: prod.splits sum.splits)
  have c: "\<And>st. set (trace st) \<subseteq> set (trace (cleanup st temp))"
    by (auto simp: cleanup_def log_def Let_def split: option.splits sum.splits)
  let ?s0 = "log (GenerateThumbnail p w h) s"
  obtain r s1 where gr: "generate_thumbnail env ?s0 p w h = (r, s1)"
    by (cases "generate_thumbnail env ?s0 p w h")
  have 1: "set (trace s) \<subseteq> set (trace s1)"
    using g [of ?s0] gr by (auto simp: log_def)
  show ?thesis
  proof (cases r)
    case None
    then show ?thesis using gr 1 by (simp add: respond_def)
  next
    case (Some buf)
    let ?s1' = "log (GetMetadata p) s1"
    obtain md s2 where mr: "get_image_metadata env ?s1' p = (md, s2)"
      by (cases "get_image_metadata env ?s1' p")
    have 2: "set (trace s1) \<subseteq> set (trace s2)"
      using m [of ?s1'] mr by (auto simp: log_def)
    have "set (trace s) \<subseteq> set (trace (cleanup s2 temp))"
      using 1 2 c [of s2] by blast
    then show ?thesis using gr Some mr
      by (simp add: respond_def Let_def split: option.splits)
  qed
qed

text \<open>
  C8. A request with an \<open>imageUrl\<close> field is handled from the URL whatever it uploads:
  the result (response and final state) is the same for every content of \<open>request.files\<close>,
  the run saves no uploaded file, and once the width and height are read the URL is
  fetched.
\<close>

theorem url_takes_precedence:
  assumes url: "form req ''imageUrl'' = Some image_url"
  shows "thumbnail env s (req\<lparr>files := fl\<rparr>) = thumbnail env s req
         \<and> upload_saves (trace (snd (thumbnail env s req))) = upload_saves (trace s)
         \<and> ((\<exists>w. form_int (form req ''width'') = Inr w) \<and> (\<exists>h. form_int (form req ''height'') = Inr h)
              \<longrightarrow> Fetch image_url \<in> set (trace (snd (thumbnail env s req))))"
proof (intro conjI impI)
  show "thumbnail env s (req\<lparr>files := fl\<rparr>) = thumbnail env s req"
    unfolding thumbnail_def resolve_source_url_files [OF url] by (simp cong: sum.case_cong)
next
  obtain r s1 where rs: "resolve_source env s req = (r, s1)"
    by (cases "resolve_source env s req")
  have s1: "upload_saves (trace s1) = upload_saves (trace s)"
    using resolve_source_url_trace(1) [OF url, of env s] rs by simp
  show "upload_saves (trace (snd (thumbnail env s req))) = upload_saves (trace s)"
  proof (cases "form_int (form req ''width'')")
    case (Inl e)
    then show ?thesis by (simp add: thumbnail_def)
  next
    case w: (Inr w)
    show ?thesis
    proof (cases "form_int (form req ''height'')")
      case (Inl e)
      then show ?thesis using w by (simp add: thumbnail_def)
    next
      case h: (Inr h)
      show ?thesis
      proof (cases r)
        case (Inl early)
        then show ?thesis using w h rs s1 by (simp add: thumbnail_def)
      next
        case (Inr pt)
        obtain p temp where pt: "pt = (p, temp)" by (cases pt)
        show ?thesis using w h rs Inr pt s1 respond_trace [of env s1 p w h temp]
          by (simp add: thumbnail_def)
      qed
    qed
  qed
next
  assume "(\<exists>w. form_int (form req ''width'') = Inr w) \<and> (\<exists>h. form_int (form req ''height'') = Inr h)"
  then obtain w h where w: "form_int (form req ''width'') = Inr w"
    and h: "form_int (form req ''height'') = Inr h" by blast
  obtain r s1 where rs: "resolve_source env s req = (r, s1)"
    by (cases "resolve_source env s req")
  have f: "Fetch image_url \<in> set (trace s1)"
    using resolve_source_url_trace(2) [OF url, of env s] rs by simp
  show "Fetch image_url \<in> set (trace (snd (thumbnail env s req)))"
  proof (cases r)
    case (Inl early)
    then show ?thesis using w h rs f by (simp add: thumbnail_def)
  next
    case (Inr pt)
    obtain p temp where pt: "pt = (p, temp)" by (cases pt)
    show ?thesis using w h rs Inr pt f respond_trace_grows [of s1 env p w h temp]
      by (auto simp: thumbnail_def)
  qed
qed



theorem url_takes_precedence_witness:
  "fst (thumbnail example_env start_state
          \<lparr>form = [''imageUrl'' \<mapsto> ''http://example.org/photo.jpg''],
           files = [''image'' \<mapsto> \<lparr>filename = ''mine.jpg'', content = [1, 8, 8, 0]\<rparr>]\<rparr>)
     = Response 200 (ThumbnailJson ''data:image/jpeg;base64,AWRLAA=='' [])
   \<and> upload_saves (trace (snd (thumbnail example_env start_state
          \<lparr>form = [''imageUrl'' \<mapsto> ''http://example.org/photo.jpg''],
           files = [''image'' \<mapsto> \<lparr>filename = ''mine.jpg'', content = [1, 8, 8, 0]\<rparr>]\<rparr>))) = []"
proof -
  let ?plain = "\<lparr>form = [''imageUrl'' \<mapsto> ''http://example.org/photo.jpg''], files = Map.empty\<rparr>"
  let ?fl = "[''image'' \<mapsto> \<lparr>filename = ''mine.jpg'', content = [1, 8, 8, 0 :: byte]\<rparr>]"
  let ?req = "\<lparr>form = [''imageUrl'' \<mapsto> ''http://example.org/photo.jpg''], files = ?fl\<rparr>"
  have url: "form ?plain ''imageUrl'' = Some ''http://example.org/photo.jpg''" by simp
  note t = url_takes_precedence [OF url, of example_env start_state ?fl]
  have r: "?plain\<lparr>files := ?fl\<rparr> = ?req" by simp
  have eq0: "thumbnail example_env start_state (?plain\<lparr>files := ?fl\<rparr>)
               = thumbnail example_env start_state ?plain"
    using t by (rule conjunct1)
  have eq: "thumbnail example_env start_state ?req = thumbnail example_env start_state ?plain"
    using eq0 by (simp only: r)
  have us: "upload_saves (trace (snd (thumbnail example_env start_state ?plain))) = []"
    using t by (simp add: start_state_def)
  have 1: "fst (thumbnail example_env start_state ?req)
             = Response 200 (ThumbnailJson ''data:image/jpeg;base64,AWRLAA=='' [])"
    by (rule trans [OF arg_cong [OF eq, of fst] photo_request])
  have 2: "upload_saves (trace (snd (thumbnail example_env start_state ?req))) = []"
    by (rule trans [OF arg_cong [OF eq, of "\<lambda>r. upload_saves (trace (snd r))"] us])
  from 1 2 show ?thesis by (rule conjI)
qed

subsection \<open>The upload source\<close>

lemma uploads_slash:
  "path_join UPLOAD_FOLDER [] = ''uploads/''"
  "rstrip_slash ''uploads/'' = ''uploads''"
  by code_simp+

lemma write_uploads_slash:
  "\<exists>e. write_file fs0 ''uploads/'' data = Inl e
       \<and> (exn_class e = ''IsADirectoryError'' \<or> exn_class e = ''NotADirectoryError'')"
  by (simp add: write_file_def uploads_slash is_a_directory_def not_a_directory_def os_error_def)

lemma dotdot: "secure_filename ''..'' = []"
  by code_simp

text \<open>
  C9. An upload whose file name is not empty but is sanitised to the empty text (such as
  \<open>..\<close>) passes the empty-name check; the path to save to is \<open>uploads/\<close>, the uploads
  directory itself; opening it for writing raises, nothing catches the exception, and so the
  request ends with the exception and not with a 400 response. Nothing is written.
\<close>

theorem empty_sanitised_name_raises:
  assumes w: "form_int (form req ''width'') = Inr w"
    and h: "form_int (form req ''height'') = Inr h"
    and no_url: "form req ''imageUrl'' = None"
    and upl: "files req ''image'' = Some image_file"
    and named: "filename image_file \<noteq> []"
    and emptied: "secure_filename (filename image_file) = []"
  shows "path_join UPLOAD_FOLDER (secure_filename (filename image_file)) = ''uploads/''
         \<and> (\<exists>e. thumbnail env s req = (Raised e, log (SaveUpload ''uploads/'') s)
                \<and> (exn_class e = ''IsADirectoryError'' \<or> exn_class e = ''NotADirectoryError''))"
proof -
  let ?s1 = "log (SaveUpload ''uploads/'') s"
  have path: "path_join UPLOAD_FOLDER (secure_filename (filename image_file)) = ''uploads/''"
    unfolding emptied by (rule uploads_slash(1))
  obtain e where e: "write_file (fs ?s1) ''uploads/'' (content image_file) = Inl e"
    and cls: "exn_class e = ''IsADirectoryError'' \<or> exn_class e = ''NotADirectoryError''"
    using write_uploads_slash [of "fs ?s1" "content image_file"] by (elim exE conjE)
  have "resolve_source env s req = (Inl (Raised e), ?s1)"
    using no_url upl named path e by (simp add: resolve_source_def Let_def)
  then have "thumbnail env s req = (Raised e, ?s1)"
    using w h by (simp add: thumbnail_def)
  then show ?thesis using path cls by (intro conjI exI)
qed

theorem empty_sanitised_name_raises_witness:
  "fst (thumbnail example_env start_state
          \<lparr>form = Map.empty, files = [''image'' \<mapsto> \<lparr>filename = ''..'', content = [1, 8, 8, 0]\<rparr>]\<rparr>)
     = Raised (is_a_directory ''uploads/'')
   \<and> stored (fs (snd (thumbnail example_env start_state
          \<lparr>form = Map.empty, files = [''image'' \<mapsto> \<lparr>filename = ''..'', content = [1, 8, 8, 0]\<rparr>]\<rparr>)))
       = Map.empty"
proof -
  let ?f = "\<lparr>filename = ''..'', content = [1, 8, 8, 0 :: byte]\<rparr>"
  let ?req = "\<lparr>form = Map.empty, files = [''image'' \<mapsto> ?f]\<rparr>"
  have w: "form_int (form ?req ''width'') = Inr 100" by (simp add: form_int_def)
  have h: "form_int (form ?req ''height'') = Inr 100" by (simp add: form_int_def)
  have no_url: "form ?req ''imageUrl'' = None" by simp
  have upl: "files ?req ''image'' = Some ?f" by simp
  have named: "filename ?f \<noteq> []" by simp
  have emptied: "secure_filename (filename ?f) = []" by (simp add: dotdot)
  from empty_sanitised_name_raises [OF w h no_url upl named emptied, of example_env start_state]
  obtain e where r: "thumbnail example_env start_state ?req
                       = (Raised e, log (SaveUpload ''uploads/'') start_state)"
    by (elim exE conjE)
  have "write_file (fs (log (SaveUpload ''uploads/'') start_state)) ''uploads/'' (content ?f)
          = Inl (is_a_directory ''uploads/'')"
    by (simp add: write_file_def uploads_slash log_def start_state_def)
  then have "thumbnail example_env start_state ?req
               = (Raised (is_a_directory ''uploads/''), log (SaveUpload ''uploads/'') start_state)"
    using w h by (simp add: thumbnail_def resolve_source_def Let_def dotdot uploads_slash)
  then have e: "e = is_a_directory ''uploads/''" using r by simp
  show ?thesis unfolding r e by (simp add: log_def start_state_def)
qed

subsection \<open>Failure of the thumbnail generation\<close>

lemma generate_thumbnail_None:
  assumes "fst (open_image env s p) = Inl e
      \<or> (\<exists>img. fst (open_image env s p) = Inr img \<and> image_thumbnail env img (w, h) = Inl e)
      \<or> (\<exists>img thumb. fst (open_image env s p) = Inr img \<and> image_thumbnail env img (w, h) = Inr thumb
             \<and> image_encode env ''JPEG'' thumb = Inl e)"
  shows "fst (generate_thumbnail env s p w h) = None"
  using assms
  by (auto simp: generate_thumbnail_def bind_exn_def Let_def split: prod.splits sum.splits)

lemma respond_500:
  "fst (generate_thumbnail env (log (GenerateThumbnail p w h) s) p w h) = None \<Longrightarrow>
   fst (respond env s p w h temp) = Response 500 (ErrorJson ''Failed to generate thumbnail'')"
  by (auto simp: respond_def split: prod.splits)

text \<open>
  C7. Once the image path is resolved, if opening the image at that path, resizing it or
  encoding it as JPEG raises, \<open>generate_thumbnail\<close> returns \<open>None\<close> and the response is
  status 500 with the message \<open>Failed to generate thumbnail\<close>.
\<close>

theorem generation_failure_is_500:
  assumes w: "form_int (form req ''width'') = Inr w"
    and h: "form_int (form req ''height'') = Inr h"
    and src: "resolve_source env s req = (Inr (image_path, temp), s1)"
    and cause: "fst (open_image env (log (GenerateThumbnail image_path w h) s1) image_path) = Inl e
      \<or> (\<exists>img. fst (open_image env (log (GenerateThumbnail image_path w h) s1) image_path) = Inr img
             \<and> image_thumbnail env img (w, h) = Inl e)
      \<or> (\<exists>img thumb. fst (open_image env (log (GenerateThumbnail image_path w h) s1) image_path) = Inr img
             \<and> image_thumbnail env img (w, h) = Inr thumb
             \<and> image_encode env ''JPEG'' thumb = Inl e)"
  shows "fst (generate_thumbnail env (log (GenerateThumbnail image_path w h) s1) image_path w h) = None
         \<and> fst (thumbnail env s req) = Response 500 (ErrorJson ''Failed to generate thumbnail'')"
proof -
  have none: "fst (generate_thumbnail env (log (GenerateThumbnail image_path w h) s1) image_path w h) = None"
    by (rule generate_thumbnail_None [OF cause])
  have "thumbnail env s req = respond env s1 image_path w h temp"
    using w h src by (simp add: thumbnail_def)
  then show ?thesis using none respond_500 [OF none, of temp] by simp
qed

lemma broken_simps:
  "secure_filename ''broken.jpg'' = ''broken.jpg''"
  "path_join UPLOAD_FOLDER ''broken.jpg'' = ''uploads/broken.jpg''"
  "dirname ''uploads/broken.jpg'' = ''uploads''"
  "rstrip_slash ''uploads/broken.jpg'' = ''uploads/broken.jpg''"
  "\<not> startswith ''uploads/broken.jpg'' ''http://''"
  "\<not> startswith ''uploads/broken.jpg'' ''https://''"
  by code_simp+

theorem generation_failure_is_500_witness:
  "fst (thumbnail example_env start_state
          \<lparr>form = Map.empty,
           files = [''image'' \<mapsto> \<lparr>filename = ''broken.jpg'', content = [60, 104, 116, 109, 108, 62]\<rparr>]\<rparr>)
     = Response 500 (ErrorJson ''Failed to generate thumbnail'')"
proof -
  let ?f = "\<lparr>filename = ''broken.jpg'', content = [60, 104, 116, 109, 108, 62 :: byte]\<rparr>"
  let ?req = "\<lparr>form = Map.empty, files = [''image'' \<mapsto> ?f]\<rparr>"
  let ?fs = "\<lparr>dirs = {''uploads''}, stored = [''uploads/broken.jpg'' \<mapsto> content ?f]\<rparr>"
  let ?s1 = "\<lparr>fs = ?fs, trace = [SaveUpload ''uploads/broken.jpg'']\<rparr>"
  let ?e = "Exn ''UnidentifiedImageError'' ''cannot identify image file''"
  have w: "form_int (form ?req ''width'') = Inr 100" by (simp add: form_int_def)
  have h: "form_int (form ?req ''height'') = Inr 100" by (simp add: form_int_def)
  have src: "resolve_source example_env start_state ?req = (Inr (''uploads/broken.jpg'', None), ?s1)"
    by (simp add: resolve_source_def write_file_def log_def Let_def start_state_def broken_simps)
  have cause: "fst (open_image example_env (log (GenerateThumbnail ''uploads/broken.jpg'' 100 100) ?s1)
                 ''uploads/broken.jpg'') = Inl ?e"
    by (simp add: open_image_def read_file_def bind_exn_def log_def broken_simps toy_defs)
  from generation_failure_is_500 [OF w h src disjI1 [OF cause]]
  show ?thesis by (rule conjunct2)
qed

subsection \<open>The temp file of the URL source\<close>

lemma image_save_stores:
  "image_save env s img p = (None, s1) \<Longrightarrow> stored (fs s1) p \<noteq> None"
  by (auto simp: image_save_def split: sum.splits)

lemma download_image_stores:
  assumes "download_image env s u = (Inr temp, s1)"
  shows "stored (fs s1) temp \<noteq> None"
proof (cases "bind_exn (urlopen env u) (image_open env)")
  case (Inl e)
  then show ?thesis using assms by (simp add: download_image_def)
next
  case (Inr img)
  let ?p = "path_join UPLOAD_FOLDER (secure_filename (basename u))"
  let ?s2 = "log (SaveImage ?p) (log (Fetch u) s)"
  obtain failure s3 where sv: "image_save env ?s2 img ?p = (failure, s3)"
    by (cases "image_save env ?s2 img ?p")
  have "failure = None \<and> temp = ?p \<and> s1 = s3"
    using assms Inr sv by (cases failure) (simp_all add: download_image_def Let_def)
  then show ?thesis using image_save_stores [of env ?s2 img ?p s3] sv by simp
qed

text \<open>
  C1, at the input where it fails. A request with an \<open>imageUrl\<close> whose picture is fetched
  and saved, but whose thumbnail generation fails, is answered with status 500 by the early
  return of line 118; the removal of the temp file (lines 127 to 132) is never reached, and
  the temp file is still in the uploads directory when the response is returned.
\<close>

theorem temp_file_left_after_failure:
  assumes w: "form_int (form req ''width'') = Inr w"
    and h: "form_int (form req ''height'') = Inr h"
    and url: "form req ''imageUrl'' = Some image_url"
    and dl: "download_image env s image_url = (Inr temp_filepath, s1)"
    and failed: "fst (generate_thumbnail env (log (GenerateThumbnail temp_filepath w h) s1)
                   temp_filepath w h) = None"
  shows "fst (thumbnail env s req) = Response 500 (ErrorJson ''Failed to generate thumbnail'')
         \<and> stored (fs (snd (thumbnail env s req))) temp_filepath = stored (fs s1) temp_filepath
         \<and> stored (fs s1) temp_filepath \<noteq> None"
proof -
  let ?s2 = "log (GenerateThumbnail temp_filepath w h) s1"
  have t: "thumbnail env s req = respond env s1 temp_filepath w h (Some temp_filepath)"
    using w h url dl by (simp add: thumbnail_def resolve_source_def)
  obtain r s3 where g: "generate_thumbnail env ?s2 temp_filepath w h = (r, s3)"
    by (cases "generate_thumbnail env ?s2 temp_filepath w h")
  have r: "r = None" using failed g by simp
  have "fs s3 = fs ?s2"
    using generate_thumbnail_state(1) [of env ?s2 temp_filepath w h] g by simp
  then have kept: "fs s3 = fs s1" by (simp add: log_def)
  have "respond env s1 temp_filepath w h (Some temp_filepath)
          = (Response 500 (ErrorJson ''Failed to generate thumbnail''), s3)"
    using g r by (simp add: respond_def)
  then show ?thesis using t kept download_image_stores [OF dl] by simp
qed

lemma logo_simps:
  "secure_filename (basename ''http://example.org/logo.png'') = ''logo.png''"
  "path_join UPLOAD_FOLDER ''logo.png'' = ''uploads/logo.png''"
  "dirname ''uploads/logo.png'' = ''uploads''"
  "rstrip_slash ''uploads/logo.png'' = ''uploads/logo.png''"
  "\<not> startswith ''uploads/logo.png'' ''http://''"
  "\<not> startswith ''uploads/logo.png'' ''https://''"
  by code_simp+

lemma prep_logo: "toy_prepare ''uploads/logo.png'' img = Inr ''PNG''"
  by (simp add: toy_prepare_def endswith_def startswith_def)

theorem temp_file_left_after_failure_witness:
  "fst (thumbnail example_env start_state
          \<lparr>form = [''imageUrl'' \<mapsto> ''http://example.org/logo.png''], files = Map.empty\<rparr>)
     = Response 500 (ErrorJson ''Failed to generate thumbnail'')
   \<and> stored (fs (snd (thumbnail example_env start_state
          \<lparr>form = [''imageUrl'' \<mapsto> ''http://example.org/logo.png''], files = Map.empty\<rparr>)))
        ''uploads/logo.png'' = Some [2, 64, 48, 1]"
proof -
  let ?req = "\<lparr>form = [''imageUrl'' \<mapsto> ''http://example.org/logo.png''], files = Map.empty\<rparr>"
  let ?fs = "\<lparr>dirs = {''uploads''}, stored = [''uploads/logo.png'' \<mapsto> [2, 64, 48, 1 :: byte]]\<rparr>"
  let ?s1 = "\<lparr>fs = ?fs, trace = [Fetch ''http://example.org/logo.png'', SaveImage ''uploads/logo.png'']\<rparr>"
  have w: "form_int (form ?req ''width'') = Inr 100" by (simp add: form_int_def)
  have h: "form_int (form ?req ''height'') = Inr 100" by (simp add: form_int_def)
  have url: "form ?req ''imageUrl'' = Some ''http://example.org/logo.png''" by simp
  have dl: "download_image example_env start_state ''http://example.org/logo.png''
              = (Inr ''uploads/logo.png'', ?s1)"
    by (simp add: download_image_def image_save_def write_file_def bind_exn_def log_def Let_def
          toy_defs logo_simps prep_logo)
  have failed: "fst (generate_thumbnail example_env
                  (log (GenerateThumbnail ''uploads/logo.png'' 100 100) ?s1)
                  ''uploads/logo.png'' 100 100) = None"
    by (simp add: generate_thumbnail_def open_image_def read_file_def image_thumbnail_def
          thumbnail_size_def bind_exn_def log_def Let_def toy_defs logo_simps)
  from temp_file_left_after_failure [OF w h url dl failed]
  show ?thesis by simp
qed

subsection \<open>The width and height the handler works with\<close>












subsection \<open>The metadata\<close>








lemma scan_simps:
  "secure_filename ''scan.png'' = ''scan.png''"
  "path_join UPLOAD_FOLDER ''scan.png'' = ''uploads/scan.png''"
  "dirname ''uploads/scan.png'' = ''uploads''"
  "rstrip_slash ''uploads/scan.png'' = ''uploads/scan.png''"
  "\<not> startswith ''uploads/scan.png'' ''http://''"
  "\<not> startswith ''uploads/scan.png'' ''https://''"
  "thumbnail_size (64, 48) (100, 100) = (64, 48)"
  by code_simp+




subsection \<open>The size of the thumbnail\<close>


lemma thumbnail_size_fits:
  "w0 \<le> x \<Longrightarrow> h0 \<le> y \<Longrightarrow> thumbnail_size (w0, h0) (x, y) = (w0, h0)"
  by (simp add: thumbnail_size_def)






text \<open>
  C10. The resize never enlarges: for an image with positive sides that is no wider and no
  higher than requested, the size computed is the original one, the image is left as it is,
  and the thumbnail that \<open>generate_thumbnail\<close> returns is the JPEG encoding of that very
  image, with exactly the original width and height.
\<close>

theorem thumbnail_never_enlarges:
  assumes opened: "fst (open_image env s p) = Inr img"
    and pos: "0 < width img" "0 < height img"
    and fits: "width img \<le> w" "height img \<le> h"
  shows "thumbnail_size (width img, height img) (w, h) = (width img, height img)
         \<and> image_thumbnail env img (w, h) = Inr img
         \<and> fst (generate_thumbnail env s p w h)
             = (case image_encode env ''JPEG'' img of Inl e \<Rightarrow> None | Inr buf \<Rightarrow> Some buf)"
proof -
  have sz: "thumbnail_size (width img, height img) (w, h) = (width img, height img)"
    by (rule thumbnail_size_fits [OF fits])
  have req: "0 < w" "0 < h" using pos fits by linarith+
  have th: "image_thumbnail env img (w, h) = Inr img"
    using pos req sz by (simp add: image_thumbnail_def)
  have "fst (generate_thumbnail env s p w h)
          = (case image_encode env ''JPEG'' img of Inl e \<Rightarrow> None | Inr buf \<Rightarrow> Some buf)"
    using opened th
    by (auto simp: generate_thumbnail_def bind_exn_def Let_def split: prod.splits sum.splits)
  then show ?thesis using sz th by simp
qed

theorem thumbnail_never_enlarges_witness:
  "thumbnail_size (64, 48) (100, 100) = (64, 48)
   \<and> fst (generate_thumbnail example_env
            \<lparr>fs = \<lparr>dirs = {''uploads''}, stored = [''uploads/scan.png'' \<mapsto> [2, 64, 48, 0]]\<rparr>,
             trace = []\<rparr> ''uploads/scan.png'' 100 100)
       = Some [1, 64, 48, 0]"
proof -
  let ?fs = "\<lparr>dirs = {''uploads''}, stored = [''uploads/scan.png'' \<mapsto> [2, 64, 48, 0 :: byte]]\<rparr>"
  let ?saved = "\<lparr>fs = ?fs, trace = []\<rparr>"
  let ?img = "\<lparr>width = 64, height = 48, pixels = 0,
               getexif = Inl (Exn ''AttributeError'' ''_getexif'')\<rparr>"
  have opened: "fst (open_image example_env ?saved ''uploads/scan.png'') = Inr ?img"
    by (simp add: open_image_def read_file_def bind_exn_def toy_defs scan_simps)
  have pos: "0 < width ?img" "0 < height ?img" by simp_all
  have fits: "width ?img \<le> 100" "height ?img \<le> 100" by simp_all
  have enc: "image_encode example_env ''JPEG'' ?img = Inr [1, 64, 48, 0]"
    by (simp add: toy_defs)
  from thumbnail_never_enlarges [OF opened pos fits] enc show ?thesis by simp
qed

end
